theory Spec2Isabelle
  imports Main
begin

section \<open>Data model of the run page\<close>

text \<open>
  The run page (\<^verbatim>\<open>RunPage\<close>) mirrors six remote resources in React state and keeps two
  mutable refs: the handle of the polling interval and the flag \<^verbatim>\<open>hitlJustApproved\<close>.
  The body of a fulfilled read is a JSON object or \<^verbatim>\<open>null\<close>: an option, \<open>None\<close> for
  \<^verbatim>\<open>null\<close>. The fields the page reads are record fields here, and a field the source
  guards with \<^verbatim>\<open>||\<close> or \<^verbatim>\<open>?.\<close> is an option too (\<open>None\<close> when absent). What the page stores
  without looking inside (the artifacts, a file entry, a decision entry) is an opaque
  string.
\<close>

record run_data =
  status :: string
  current_phase :: string
  current_agent :: string
  brief :: string
  num_requirements :: nat
  num_user_stories :: nat
  num_test_cases :: nat
  num_generated_files :: nat
  planning_iteration :: nat

record activity_entry =
  agent :: string
  message :: string
  icon :: string
  timestamp :: string

record deploy_data =
  dep_status :: string
  urls :: "(string \<times> string) list"

text \<open>
  What the page reads of a rejected request: \<^verbatim>\<open>reason?.response?.status\<close>,
  \<^verbatim>\<open>e.response?.data?.detail\<close> and \<^verbatim>\<open>e.message\<close>.
\<close>

record reason =
  response_status :: "nat option"
  response_detail :: "string option"
  err_message :: string

text \<open>One element of the array that \<^verbatim>\<open>Promise.allSettled\<close> resolves to.\<close>

datatype 'a settled = Fulfilled 'a | Rejected reason

text \<open>
  The bodies of the files, decisions and activity responses, read through
  \<^verbatim>\<open>data.files || []\<close>, \<^verbatim>\<open>data.decisions || []\<close> and \<^verbatim>\<open>data.activity || []\<close>: the one field the
  page reads, which may be absent.
\<close>

record files_body =
  body_files :: "string list option"

record decisions_body =
  body_decisions :: "string list option"

record activity_body =
  body_activity :: "activity_entry list option"

text \<open>
  The six results of one poll cycle, in the order of the array in \<^verbatim>\<open>fetchAll\<close>; what a
  fulfilled one carries is \<^verbatim>\<open>value.data\<close>, the body.
\<close>

record cycle =
  runRes :: "run_data option settled"
  artRes :: "string option settled"
  filesRes :: "files_body option settled"
  decRes :: "decisions_body option settled"
  depRes :: "deploy_data option settled"
  actRes :: "activity_body option settled"

text \<open>
  The component state: the \<^verbatim>\<open>useState\<close> cells and the two refs. \<open>pollRef\<close> is \<open>True\<close> while
  the interval stored in \<^verbatim>\<open>pollRef.current\<close> is live, that is between \<^verbatim>\<open>setInterval\<close> and
  \<^verbatim>\<open>clearInterval\<close>: a poll cycle is scheduled exactly while it holds.
\<close>

record state =
  run :: "run_data option"
  artifacts :: "string option"
  files :: "string list"
  decisions :: "string list"
  deploy :: "deploy_data option"
  activityLog :: "activity_entry list"
  tab :: string
  loading :: bool
  error :: "string option"
  hitlLoading :: bool
  pollRef :: bool
  hitlJustApproved :: bool

section \<open>One poll cycle: \<^verbatim>\<open>fetchAll\<close>\<close>

text \<open>
  \<^verbatim>\<open>fetchAll\<close> awaits all six requests at once and only then touches the state, in one
  uninterrupted run of the event loop; the model is that run, a function of the state at
  that moment and of the six results. \<^verbatim>\<open>Promise.allSettled\<close> never rejects and no setter
  throws, so the only way into the \<^verbatim>\<open>catch\<close> block is a \<^verbatim>\<open>TypeError\<close> from reading a
  property of a \<^verbatim>\<open>null\<close> body: \<^verbatim>\<open>incoming.status\<close> on line 201, \<^verbatim>\<open>data.files\<close>,
  \<^verbatim>\<open>data.decisions\<close> and \<^verbatim>\<open>data.activity\<close> on lines 216, 217 and 219. The setters called
  before the throw have taken effect, the statements after it are skipped, the
  \<^verbatim>\<open>catch\<close> is silent, and \<^verbatim>\<open>finally\<close> clears \<open>loading\<close> on every path.
\<close>

text \<open>
  Where a run of statements inside the \<^verbatim>\<open>try\<close> block has got to: it threw, or it ran to
  its end; either way with the state it had reached.
\<close>

datatype tried = Thrown state | Finished state

definition thenDo :: "tried \<Rightarrow> (state \<Rightarrow> tried) \<Rightarrow> tried" where
  "thenDo t f = (case t of Thrown s \<Rightarrow> Thrown s | Finished s \<Rightarrow> f s)"

text \<open>\<^verbatim>\<open>catch (e) { /* silent */ }\<close>: the state reached is kept.\<close>

definition caught :: "tried \<Rightarrow> state" where
  "caught t = (case t of Thrown s \<Rightarrow> s | Finished s \<Rightarrow> s)"

text \<open>The phase written while the flag masks a stale result (the nested conditional of line 207).\<close>

definition maskedPhase :: "run_data option \<Rightarrow> run_data \<Rightarrow> string" where
  "maskedPhase prev incoming =
     (if map_option current_phase prev = Some ''hitl_gate_1'' then ''building''
      else if map_option current_phase prev = Some ''hitl_gate_2'' then ''devops''
      else current_phase incoming)"

text \<open>
  Lines 199 to 211: what a fulfilled run-status response does to the run and the flag.
  With the flag set the status of the body is read, which throws on a \<^verbatim>\<open>null\<close> body; with
  the flag clear the body is stored as it is.
\<close>

definition applyRun :: "state \<Rightarrow> run_data option \<Rightarrow> tried" where
  "applyRun s incoming =
     (if hitlJustApproved s then
        (case incoming of
           None \<Rightarrow> Thrown s
         | Some r \<Rightarrow>
             (if status r \<noteq> ''waiting_hitl'' then
                Finished (s\<lparr>hitlJustApproved := False, run := Some r\<rparr>)
              else
                Finished (s\<lparr>run := Some (r\<lparr>status := ''running'',
                                             current_phase := maskedPhase (run s) r,
                                             current_agent := ''''\<rparr>)\<rparr>)))
      else Finished (s\<lparr>run := incoming\<rparr>))"

text \<open>\<^verbatim>\<open>x || []\<close> on a field that is an array or absent.\<close>

definition orEmpty :: "'a list option \<Rightarrow> 'a list" where
  "orEmpty x = (case x of None \<Rightarrow> [] | Some xs \<Rightarrow> xs)"

text \<open>
  Lines 215 to 219, one definition a line: the field is set when its own request was
  fulfilled. Lines 215 and 218 store the body as it is; lines 216, 217 and 219 read a
  field of the body and throw when the body is \<^verbatim>\<open>null\<close>.
\<close>

definition setArtifacts :: "state \<Rightarrow> cycle \<Rightarrow> tried" where
  "setArtifacts s c =
     (case artRes c of
        Fulfilled d \<Rightarrow> Finished (s\<lparr>artifacts := d\<rparr>)
      | Rejected _ \<Rightarrow> Finished s)"

definition setFiles :: "state \<Rightarrow> cycle \<Rightarrow> tried" where
  "setFiles s c =
     (case filesRes c of
        Fulfilled None \<Rightarrow> Thrown s
      | Fulfilled (Some d) \<Rightarrow> Finished (s\<lparr>files := orEmpty (body_files d)\<rparr>)
      | Rejected _ \<Rightarrow> Finished s)"

definition setDecisions :: "state \<Rightarrow> cycle \<Rightarrow> tried" where
  "setDecisions s c =
     (case decRes c of
        Fulfilled None \<Rightarrow> Thrown s
      | Fulfilled (Some d) \<Rightarrow> Finished (s\<lparr>decisions := orEmpty (body_decisions d)\<rparr>)
      | Rejected _ \<Rightarrow> Finished s)"

definition setDeploy :: "state \<Rightarrow> cycle \<Rightarrow> tried" where
  "setDeploy s c =
     (case depRes c of
        Fulfilled d \<Rightarrow> Finished (s\<lparr>deploy := d\<rparr>)
      | Rejected _ \<Rightarrow> Finished s)"

definition setActivityLog :: "state \<Rightarrow> cycle \<Rightarrow> tried" where
  "setActivityLog s c =
     (case actRes c of
        Fulfilled None \<Rightarrow> Thrown s
      | Fulfilled (Some d) \<Rightarrow> Finished (s\<lparr>activityLog := orEmpty (body_activity d)\<rparr>)
      | Rejected _ \<Rightarrow> Finished s)"

definition applyRest :: "state \<Rightarrow> cycle \<Rightarrow> tried" where
  "applyRest s c =
     thenDo (thenDo (thenDo (thenDo (setArtifacts s c)
       (\<lambda>s1. setFiles s1 c)) (\<lambda>s2. setDecisions s2 c)) (\<lambda>s3. setDeploy s3 c))
       (\<lambda>s4. setActivityLog s4 c)"

text \<open>
  The test \<^verbatim>\<open>runRes.reason?.response?.status === 404\<close> of the \<^verbatim>\<open>else if\<close>, on a reason and
  on a settled result; and a fulfilled result whose body is \<^verbatim>\<open>null\<close>.
\<close>

definition is404 :: "reason \<Rightarrow> bool" where
  "is404 e = (response_status e = Some 404)"

definition notFound :: "'a settled \<Rightarrow> bool" where
  "notFound r = (case r of Fulfilled _ \<Rightarrow> False | Rejected e \<Rightarrow> is404 e)"


text \<open>
  The \<^verbatim>\<open>try\<close> block of \<^verbatim>\<open>fetchAll\<close>, then \<^verbatim>\<open>catch\<close> and \<^verbatim>\<open>finally\<close>. The 404 branch
  returns from inside the block.
\<close>

definition tryBlock :: "state \<Rightarrow> cycle \<Rightarrow> tried" where
  "tryBlock s c =
     (case runRes c of
        Fulfilled incoming \<Rightarrow> thenDo (applyRun s incoming) (\<lambda>s1. applyRest s1 c)
      | Rejected e \<Rightarrow>
          (if is404 e
           then Finished (s\<lparr>pollRef := False, run := None, loading := False\<rparr>)
           else applyRest s c))"

definition fetchAll :: "state \<Rightarrow> cycle \<Rightarrow> state" where
  "fetchAll s c = (caught (tryBlock s c))\<lparr>loading := False\<rparr>"

text \<open>
  The state with which \<^verbatim>\<open>fetchAll\<close> reaches line 215, when it does (no 404, and no
  throw on line 201): the run-status result has been dealt with.
\<close>

definition afterRun :: "state \<Rightarrow> cycle \<Rightarrow> state" where
  "afterRun s c =
     (case runRes c of Fulfilled incoming \<Rightarrow> caught (applyRun s incoming) | Rejected _ \<Rightarrow> s)"

section \<open>The HITL command: \<^verbatim>\<open>handleHITL\<close>\<close>

text \<open>
  The body of the answer to \<^verbatim>\<open>POST /runs/{id}/hitl\<close>. The page reads \<^verbatim>\<open>data.status\<close> and
  \<^verbatim>\<open>data.current_phase || prev.current_phase\<close>, so the phase may be absent.
\<close>

record hitl_response =
  resp_status :: string
  resp_current_phase :: "string option"

datatype decision = Approved | ChangesRequested | RejectedDecision

text \<open>\<^verbatim>\<open>a || b\<close> on an optional string: absent and empty are both falsy.\<close>

definition orElse :: "string option \<Rightarrow> string \<Rightarrow> string" where
  "orElse a b = (case a of None \<Rightarrow> b | Some x \<Rightarrow> if x = [] then b else x)"

text \<open>\<^verbatim>\<open>e.response?.data?.detail || e.message\<close>.\<close>

definition errorText :: "reason \<Rightarrow> string" where
  "errorText e = orElse (response_detail e) (err_message e)"

text \<open>
  \<^verbatim>\<open>handleHITL\<close> has two uninterrupted parts, before and after \<^verbatim>\<open>await submitHITL\<close>. The
  decision and the feedback only travel to the server; what comes back is the second
  part's input. Poll cycles may settle between the two parts.
\<close>

definition handleHITL_begin :: "state \<Rightarrow> state" where
  "handleHITL_begin s = s\<lparr>hitlLoading := True, error := None\<rparr>"

definition handleHITL_settle :: "state \<Rightarrow> hitl_response settled \<Rightarrow> state" where
  "handleHITL_settle s res =
     (case res of
        Fulfilled data \<Rightarrow>
          (if resp_status data \<noteq> ''already_processed'' then
             s\<lparr>hitlJustApproved := True,
               run := (case run s of
                         None \<Rightarrow> None
                       | Some prev \<Rightarrow>
                           Some (prev\<lparr>status := ''running'',
                                      current_phase :=
                                        orElse (resp_current_phase data) (current_phase prev),
                                      current_agent := ''''\<rparr>)),
               hitlLoading := False\<rparr>
           else s\<lparr>hitlLoading := False\<rparr>)
      | Rejected e \<Rightarrow> s\<lparr>error := Some (errorText e), hitlLoading := False\<rparr>)"

text \<open>The whole handler when nothing else happens during the \<^verbatim>\<open>await\<close>.\<close>

definition handleHITL :: "state \<Rightarrow> decision \<Rightarrow> string \<Rightarrow> hitl_response settled \<Rightarrow> state" where
  "handleHITL s d feedback res = handleHITL_settle (handleHITL_begin s) res"

section \<open>The page as a transition system\<close>

text \<open>
  The state with which the component mounts: the initial values of the \<^verbatim>\<open>useState\<close> cells
  and refs, and the interval started by the first effect.
\<close>

definition mount :: state where
  "mount = \<lparr>run = None, artifacts = None, files = [], decisions = [],
            deploy = Some \<lparr>dep_status = ''idle'', urls = []\<rparr>, activityLog = [],
            tab = ''Pipeline'', loading = True, error = None, hitlLoading = False,
            pollRef = True, hitlJustApproved = False\<rparr>"

text \<open>
  The second effect, \<^verbatim>\<open>if (run?.status === 'completed') clearInterval(pollRef.current)\<close>, with
  dependency \<^verbatim>\<open>[run?.status]\<close>: it runs after a render in which that value differs from the
  one of the render before.
\<close>

definition completedEffect :: "state \<Rightarrow> state \<Rightarrow> state" where
  "completedEffect before s =
     (if map_option status (run s) \<noteq> map_option status (run before)
         \<and> map_option status (run s) = Some ''completed''
      then s\<lparr>pollRef := False\<rparr> else s)"

text \<open>
  The page renders the gate, the only caller of \<^verbatim>\<open>handleHITL\<close>, when it is past the loading
  and not-found returns and \<^verbatim>\<open>run.status === 'waiting_hitl'\<close>.
\<close>

definition isAtHITL :: "state \<Rightarrow> bool" where
  "isAtHITL s =
     (\<not> loading s \<and> (case run s of None \<Rightarrow> False | Some r \<Rightarrow> status r = ''waiting_hitl''))"

text \<open>
  What can happen to a mounted page. \<open>Poll\<close> is the moment a \<^verbatim>\<open>fetchAll\<close> settles, whoever
  started it (the interval, the refresh button, an export); \<open>Click\<close> is a press on one of the
  gate's three buttons and \<open>HitlSettled\<close> the answer to the command it sent; \<open>DeploySettled\<close>
  is the answer to a deploy or teardown command. \<open>Activate\<close> is leaving the page and coming
  back: a new component instance. \<open>RunIdChanged\<close> is a change of the route's run id on a
  page that stays mounted: \<^verbatim>\<open>fetchAll\<close> depends on \<^verbatim>\<open>runId\<close> and the first effect on
  \<^verbatim>\<open>fetchAll\<close>, so the effect is cleaned up and run again (the interval is cleared and set
  anew) while the state cells and the flag keep their values. \<open>Teardown\<close> is the cleanup of
  the first effect alone.
  A click counts only while the gate is rendered and its buttons are enabled; the
  changes-requested button is also disabled for blank feedback, which the model does not
  look at (it allows more clicks than the page).
\<close>

datatype event =
    Activate
  | RunIdChanged
  | Teardown
  | Poll cycle
  | Click decision string
  | HitlSettled "hitl_response settled"
  | DeploySettled "deploy_data option settled"
  | ExportFailed reason
  | SetTab string
  | CloseError

fun dispatch :: "state \<Rightarrow> event \<Rightarrow> state" where
  "dispatch s Activate = mount"
| "dispatch s RunIdChanged = s\<lparr>pollRef := True\<rparr>"
| "dispatch s Teardown = s\<lparr>pollRef := False\<rparr>"
| "dispatch s (Poll c) = fetchAll s c"
| "dispatch s (Click d feedback) =
     (if isAtHITL s \<and> \<not> hitlLoading s then handleHITL_begin s else s)"
| "dispatch s (HitlSettled res) = (if hitlLoading s then handleHITL_settle s res else s)"
| "dispatch s (DeploySettled res) =
     (case res of Fulfilled d \<Rightarrow> s\<lparr>deploy := d\<rparr> | Rejected e \<Rightarrow> s\<lparr>error := Some (errorText e)\<rparr>)"
| "dispatch s (ExportFailed e) = s\<lparr>error := Some (errorText e)\<rparr>"
| "dispatch s (SetTab t) = s\<lparr>tab := t\<rparr>"
| "dispatch s CloseError = s\<lparr>error := None\<rparr>"

text \<open>
  One event, one render, then the effect on the run's status: the updates of one handler
  are applied together and the effect compares the status with that of the state before
  the event.
\<close>

definition step :: "state \<Rightarrow> event \<Rightarrow> state" where
  "step s e = completedEffect s (dispatch s e)"

definition run_events :: "state \<Rightarrow> event list \<Rightarrow> state" where
  "run_events s evs = foldl step s evs"

text \<open>The two events that run the first effect, and so set the interval.\<close>

fun activation :: "event \<Rightarrow> bool" where
  "activation Activate = True"
| "activation RunIdChanged = True"
| "activation e = False"

section \<open>The phase timeline: \<^verbatim>\<open>PipelineTracker\<close>\<close>

text \<open>
  The keys of the \<^verbatim>\<open>PHASES\<close> table, in its order (labels, icons and agent captions are only
  printed), and the \<^verbatim>\<open>AGENT_PHASE\<close> table.
\<close>

definition PHASES :: "string list" where
  "PHASES = [''planning'', ''hitl_gate_1'', ''building'', ''integration'',
             ''hitl_gate_2'', ''devops'', ''done'']"

definition AGENT_PHASE :: "(string \<times> string) list" where
  "AGENT_PHASE =
     [(''BA Agent'', ''planning''), (''PO Agent'', ''planning''), (''Architect'', ''planning''),
      (''Evaluator'', ''planning''), (''HITL Gate 1'', ''hitl_gate_1''),
      (''Backend Builder'', ''building''), (''Frontend Builder'', ''building''),
      (''QA Agent'', ''building''), (''Integration Validator'', ''integration''),
      (''HITL Gate 2'', ''hitl_gate_2''), (''DevOps Agent'', ''devops''), (''Pipeline'', ''done'')]"

text \<open>\<^verbatim>\<open>Array.prototype.findIndex\<close>: the first position that satisfies the test, or \<open>-1\<close>.\<close>

fun findIndex :: "('a \<Rightarrow> bool) \<Rightarrow> 'a list \<Rightarrow> int" where
  "findIndex P [] = - 1"
| "findIndex P (x # xs) =
     (if P x then 0 else (let r = findIndex P xs in if r = - 1 then - 1 else r + 1))"

definition phaseIndex :: "string \<Rightarrow> int" where
  "phaseIndex phase =
     (let idx = findIndex (\<lambda>p. p = phase) PHASES in if idx = - 1 then 0 else idx)"

text \<open>
  \<^verbatim>\<open>latestByAgent[entry.agent] = entry\<close> on an object: a known key keeps its place and gets
  the new value, a new key goes last. \<^verbatim>\<open>Object.entries\<close> lists integer-like keys first,
  but no such key is in \<^verbatim>\<open>AGENT_PHASE\<close>, and the filter below drops every key outside
  that table, so what it leaves is in insertion order.
\<close>

fun assign :: "(string \<times> 'v) list \<Rightarrow> string \<Rightarrow> 'v \<Rightarrow> (string \<times> 'v) list" where
  "assign [] k v = [(k, v)]"
| "assign ((k', v') # m) k v = (if k' = k then (k, v) # m else (k', v') # assign m k v)"

definition latestByAgent :: "activity_entry list \<Rightarrow> (string \<times> activity_entry) list" where
  "latestByAgent log = foldl (\<lambda>m entry. assign m (agent entry) entry) [] log"

text \<open>
  What the component computes for one row of the timeline. The counters, the badges that
  depend on the run's status and the banner of the last activity are only printed and are
  left out.
\<close>

record phase_view =
  pv_key :: string
  isDone :: bool
  isCurrent :: bool
  isPending :: bool
  phaseAgents :: "(string \<times> activity_entry) list"

definition PipelineTracker :: "run_data \<Rightarrow> activity_entry list \<Rightarrow> phase_view list" where
  "PipelineTracker r log =
     (let current = phaseIndex (current_phase r);
          latest = latestByAgent log
      in map (\<lambda>(i, phase).
                \<lparr>pv_key = phase,
                 isDone = (int i < current),
                 isCurrent = (int i = current),
                 isPending = (int i > current),
                 phaseAgents = filter (\<lambda>(a, entry). map_of AGENT_PHASE a = Some phase) latest\<rparr>)
             (enumerate 0 PHASES))"

section \<open>Sample inputs\<close>

text \<open>Concrete runs, states, failures and poll cycles on which the theorems are exercised.\<close>

definition sampleRun :: "string \<Rightarrow> string \<Rightarrow> string \<Rightarrow> run_data" where
  "sampleRun st ph ag =
     \<lparr>status = st, current_phase = ph, current_agent = ag, brief = ''incident tracker'',
      num_requirements = 4, num_user_stories = 6, num_test_cases = 9,
      num_generated_files = 12, planning_iteration = 1\<rparr>"

definition sampleState :: "run_data option \<Rightarrow> bool \<Rightarrow> state" where
  "sampleState r flag = mount\<lparr>run := r, loading := False, hitlJustApproved := flag\<rparr>"

definition sampleFailure :: "nat option \<Rightarrow> reason" where
  "sampleFailure code =
     \<lparr>response_status = code, response_detail = None, err_message = ''Request failed''\<rparr>"

definition sampleEntry :: "string \<Rightarrow> string \<Rightarrow> activity_entry" where
  "sampleEntry a m = \<lparr>agent = a, message = m, icon = ''*'', timestamp = ''2024-05-01T10:00:00''\<rparr>"

definition sampleCycle :: "run_data option settled \<Rightarrow> cycle" where
  "sampleCycle r =
     \<lparr>runRes = r, artRes = Fulfilled (Some ''requirements''),
      filesRes = Fulfilled (Some \<lparr>body_files = Some [''app/main.py'']\<rparr>),
      decRes = Rejected (sampleFailure (Some 500)),
      depRes = Fulfilled (Some \<lparr>dep_status = ''running'', urls = []\<rparr>),
      actRes = Fulfilled (Some \<lparr>body_activity = Some [sampleEntry ''BA Agent'' ''done'']\<rparr>)\<rparr>"

definition gateRun :: run_data where
  "gateRun = sampleRun ''waiting_hitl'' ''hitl_gate_1'' ''HITL Gate 1''"

definition buildingRun :: run_data where
  "buildingRun = sampleRun ''running'' ''building'' ''Backend Builder''"

definition notFoundCycle :: cycle where
  "notFoundCycle = sampleCycle (Rejected (sampleFailure (Some 404)))"

definition staleCycle :: cycle where
  "staleCycle = sampleCycle (Fulfilled (Some gateRun))"

definition completedCycle :: cycle where
  "completedCycle = sampleCycle (Fulfilled (Some (sampleRun ''completed'' ''done'' '''')))"

text \<open>
  Cycles in which every request is fulfilled and one body is \<^verbatim>\<open>null\<close>, and a state with
  fields that differ from what those cycles bring.
\<close>

definition fullCycle :: cycle where
  "fullCycle = staleCycle\<lparr>decRes := Fulfilled (Some \<lparr>body_decisions = Some [''use FastAPI'']\<rparr>)\<rparr>"

definition nullRunCycle :: cycle where
  "nullRunCycle = fullCycle\<lparr>runRes := Fulfilled None\<rparr>"





definition ackNoPhase :: hitl_response where
  "ackNoPhase = \<lparr>resp_status = ''resumed'', resp_current_phase = None\<rparr>"

definition ackPhase :: "string \<Rightarrow> hitl_response" where
  "ackPhase p = \<lparr>resp_status = ''resumed'', resp_current_phase = Some p\<rparr>"

definition alreadyProcessed :: hitl_response where
  "alreadyProcessed = \<lparr>resp_status = ''already_processed'', resp_current_phase = None\<rparr>"

text \<open>
  The page at gate 1 after the user approved and the command was acknowledged with \<open>ack\<close>.
\<close>

definition armedState :: "hitl_response \<Rightarrow> state" where
  "armedState ack =
     step (step (sampleState (Some gateRun) False) (Click Approved ''ok''))
          (HitlSettled (Fulfilled ack))"

text \<open>
  A session from the mount on: the first poll shows gate 1, the user approves, the command
  is acknowledged.
\<close>

definition sessionEvents :: "event list" where
  "sessionEvents =
     [Poll staleCycle, Click Approved ''ok'', HitlSettled (Fulfilled ackNoPhase)]"

definition sessionState :: state where
  "sessionState = run_events mount sessionEvents"

definition sampleLog :: "activity_entry list" where
  "sampleLog =
     [sampleEntry ''BA Agent'' ''reading the brief'', sampleEntry ''Architect'' ''tech spec'',
      sampleEntry ''BA Agent'' ''requirements ready'']"

section \<open>Invariants and assumptions on the environment\<close>

text \<open>
  While the interval is live the run shown is not \<open>completed\<close>: the second effect clears the
  interval in the very render in which the status becomes \<open>completed\<close>. This holds on a
  page from its mount on; only a change of run id on a page that shows a completed run
  breaks it.
\<close>

definition pollOK :: "state \<Rightarrow> bool" where
  "pollOK s = (pollRef s \<longrightarrow> map_option status (run s) \<noteq> Some ''completed'')"

definition notWaiting :: "state \<Rightarrow> bool" where
  "notWaiting s = (map_option status (run s) \<noteq> Some ''waiting_hitl'')"

text \<open>An event other than a run-status result that says \<open>waiting_hitl\<close>.\<close>

fun avoidsWaiting :: "event \<Rightarrow> bool" where
  "avoidsWaiting (Poll c) =
     (case runRes c of
        Fulfilled None \<Rightarrow> True
      | Fulfilled (Some r) \<Rightarrow> status r \<noteq> ''waiting_hitl''
      | Rejected e \<Rightarrow> True)"
| "avoidsWaiting e = True"

section \<open>Frame lemmas\<close>

lemma thenDo_simps [simp]:
  "thenDo (Finished s) f = f s"
  "thenDo (Thrown s) f = Thrown s"
  by (simp_all add: thenDo_def)

lemma caught_simps [simp]:
  "caught (Finished s) = s"
  "caught (Thrown s) = s"
  by (simp_all add: caught_def)

text \<open>
  A selector that every step of a chain leaves alone is left alone by the chain, thrown
  or not.
\<close>

lemma frame_thenDo:
  assumes "\<And>s. g (caught (f s)) = g s"
  shows "g (caught (thenDo t f)) = g (caught t)"
  using assms by (cases t) simp_all

lemma setters_frame:
  assumes "\<And>s v. g (s\<lparr>artifacts := v\<rparr>) = g s" and "\<And>s v. g (s\<lparr>files := v\<rparr>) = g s"
    and "\<And>s v. g (s\<lparr>decisions := v\<rparr>) = g s" and "\<And>s v. g (s\<lparr>deploy := v\<rparr>) = g s"
    and "\<And>s v. g (s\<lparr>activityLog := v\<rparr>) = g s"
  shows "g (caught (setArtifacts s c)) = g s"
    and "g (caught (setFiles s c)) = g s"
    and "g (caught (setDecisions s c)) = g s"
    and "g (caught (setDeploy s c)) = g s"
    and "g (caught (setActivityLog s c)) = g s"
  using assms
  by (simp_all add: setArtifacts_def setFiles_def setDecisions_def setDeploy_def
      setActivityLog_def split: settled.splits option.splits)

lemma applyRest_frame:
  assumes "\<And>s v. g (s\<lparr>artifacts := v\<rparr>) = g s" and "\<And>s v. g (s\<lparr>files := v\<rparr>) = g s"
    and "\<And>s v. g (s\<lparr>decisions := v\<rparr>) = g s" and "\<And>s v. g (s\<lparr>deploy := v\<rparr>) = g s"
    and "\<And>s v. g (s\<lparr>activityLog := v\<rparr>) = g s"
  shows "g (caught (applyRest s c)) = g s"
proof -
  note fr = setters_frame [of g, OF assms]
  have "g (caught (applyRest s c))
      = g (caught (thenDo (thenDo (thenDo (setArtifacts s c)
           (\<lambda>s1. setFiles s1 c)) (\<lambda>s2. setDecisions s2 c)) (\<lambda>s3. setDeploy s3 c)))"
    unfolding applyRest_def by (rule frame_thenDo) (rule fr)
  also have "\<dots> = g (caught (thenDo (thenDo (setArtifacts s c)
           (\<lambda>s1. setFiles s1 c)) (\<lambda>s2. setDecisions s2 c)))"
    by (rule frame_thenDo) (rule fr)
  also have "\<dots> = g (caught (thenDo (setArtifacts s c) (\<lambda>s1. setFiles s1 c)))"
    by (rule frame_thenDo) (rule fr)
  also have "\<dots> = g (caught (setArtifacts s c))"
    by (rule frame_thenDo) (rule fr)
  also have "\<dots> = g s" by (rule fr)
  finally show ?thesis .
qed

lemma applyRest_run [simp]: "run (caught (applyRest s c)) = run s"
  by (rule applyRest_frame) simp_all

lemma applyRest_flag [simp]: "hitlJustApproved (caught (applyRest s c)) = hitlJustApproved s"
  by (rule applyRest_frame) simp_all

lemma applyRest_pollRef [simp]: "pollRef (caught (applyRest s c)) = pollRef s"
  by (rule applyRest_frame) simp_all

lemma applyRest_hitlLoading [simp]: "hitlLoading (caught (applyRest s c)) = hitlLoading s"
  by (rule applyRest_frame) simp_all

text \<open>What a fulfilled run-status result leaves in the run, the flag and the interval.\<close>

lemma fetchAll_fulfilled:
  assumes "runRes c = Fulfilled incoming"
  shows "run (fetchAll s c) = run (caught (applyRun s incoming))"
    and "hitlJustApproved (fetchAll s c) = hitlJustApproved (caught (applyRun s incoming))"
    and "pollRef (fetchAll s c) = pollRef (caught (applyRun s incoming))"
    and "hitlLoading (fetchAll s c) = hitlLoading (caught (applyRun s incoming))"
  using assms
  by (cases "applyRun s incoming"; simp add: fetchAll_def tryBlock_def)+

lemma fetchAll_rejected:
  assumes "runRes c = Rejected e" and "\<not> is404 e"
  shows "run (fetchAll s c) = run s"
    and "hitlJustApproved (fetchAll s c) = hitlJustApproved s"
    and "pollRef (fetchAll s c) = pollRef s"
    and "hitlLoading (fetchAll s c) = hitlLoading s"
  using assms by (simp_all add: fetchAll_def tryBlock_def)

lemma fetchAll_loading: "\<not> loading (fetchAll s c)"
  by (simp add: fetchAll_def)

lemma fetchAll_not_found:
  assumes "runRes c = Rejected e" and "is404 e"
  shows "fetchAll s c = s\<lparr>pollRef := False, run := None, loading := False\<rparr>"
  using assms by (simp add: fetchAll_def tryBlock_def)

lemma applyRun_caught:
  "caught (applyRun s incoming) =
     (if hitlJustApproved s then
        (case incoming of
           None \<Rightarrow> s
         | Some r \<Rightarrow>
             (if status r \<noteq> ''waiting_hitl'' then s\<lparr>hitlJustApproved := False, run := Some r\<rparr>
              else s\<lparr>run := Some (r\<lparr>status := ''running'',
                                     current_phase := maskedPhase (run s) r,
                                     current_agent := ''''\<rparr>)\<rparr>))
      else s\<lparr>run := incoming\<rparr>)"
  by (simp add: applyRun_def split: option.splits)

lemma completedEffect_run [simp]: "run (completedEffect b s) = run s"
  by (simp add: completedEffect_def)

lemma completedEffect_flag [simp]: "hitlJustApproved (completedEffect b s) = hitlJustApproved s"
  by (simp add: completedEffect_def)

lemma completedEffect_fields [simp]:
  "artifacts (completedEffect b s) = artifacts s"
  "files (completedEffect b s) = files s"
  "decisions (completedEffect b s) = decisions s"
  "deploy (completedEffect b s) = deploy s"
  "activityLog (completedEffect b s) = activityLog s"
  "loading (completedEffect b s) = loading s"
  "error (completedEffect b s) = error s"
  "hitlLoading (completedEffect b s) = hitlLoading s"
  by (simp_all add: completedEffect_def)

lemma completedEffect_pollRef_off: "\<not> pollRef s \<Longrightarrow> \<not> pollRef (completedEffect b s)"
  by (simp add: completedEffect_def)

section \<open>Arbitration of a poll result against a pending overlay\<close>

text \<open>
  Claim C1. A poll settles while the flag \<open>hitlJustApproved\<close> is set and its run-status
  result carries a status other than \<open>waiting_hitl\<close>: the flag is cleared and the run shown
  is exactly the incoming result, whatever its phase.
\<close>

theorem poll_non_waiting_retires_overlay:
  assumes "hitlJustApproved s" and "runRes c = Fulfilled (Some incoming)"
    and "status incoming \<noteq> ''waiting_hitl''"
  shows "run (step s (Poll c)) = Some incoming \<and> \<not> hitlJustApproved (step s (Poll c))"
  using assms by (simp add: step_def fetchAll_fulfilled applyRun_caught)

text \<open>
  The scenario of the specification: the view predicts \<open>devops\<close>, the next poll reports
  \<open>running\<close> at \<open>building\<close>, and the view adopts \<open>building\<close>.
\<close>

theorem poll_non_waiting_retires_overlay_witness:
  "hitlJustApproved (sampleState (Some (sampleRun ''running'' ''devops'' '''')) True)
   \<and> runRes (sampleCycle (Fulfilled (Some buildingRun))) = Fulfilled (Some buildingRun)
   \<and> status buildingRun \<noteq> ''waiting_hitl''
   \<and> current_phase buildingRun = ''building''
   \<and> run (step (sampleState (Some (sampleRun ''running'' ''devops'' '''')) True)
              (Poll (sampleCycle (Fulfilled (Some buildingRun)))))
       = Some buildingRun
   \<and> \<not> hitlJustApproved
        (step (sampleState (Some (sampleRun ''running'' ''devops'' '''')) True)
              (Poll (sampleCycle (Fulfilled (Some buildingRun)))))"
proof -
  let ?s = "sampleState (Some (sampleRun ''running'' ''devops'' '''')) True"
  let ?c = "sampleCycle (Fulfilled (Some buildingRun))"
  have h1: "hitlJustApproved ?s" by (simp add: sampleState_def)
  have h2: "runRes ?c = Fulfilled (Some buildingRun)" by (simp add: sampleCycle_def)
  have h3: "status buildingRun \<noteq> ''waiting_hitl''" by (simp add: buildingRun_def sampleRun_def)
  have ph: "current_phase buildingRun = ''building''" by (simp add: buildingRun_def sampleRun_def)
  show ?thesis
    using h1 h2 h3 ph poll_non_waiting_retires_overlay [OF h1 h2 h3] by simp
qed

text \<open>
  While the flag masks a stale result the view stays \<open>running\<close> with no agent and the flag
  stays set; the phase shown is the one computed by \<open>maskedPhase\<close> from the phase the view
  showed before.
\<close>

lemma stale_poll_keeps_running:
  assumes "hitlJustApproved s" and "runRes c = Fulfilled (Some incoming)"
    and "status incoming = ''waiting_hitl''"
  shows "map_option status (run (step s (Poll c))) = Some ''running''"
    and "map_option current_agent (run (step s (Poll c))) = Some ''''"
    and "map_option current_phase (run (step s (Poll c))) = Some (maskedPhase (run s) incoming)"
    and "hitlJustApproved (step s (Poll c))"
  using assms by (simp_all add: step_def fetchAll_fulfilled applyRun_caught)

text \<open>
  Claim C2 says that every stale poll (status still \<open>waiting_hitl\<close>) received while the
  overlay is pending shows the predicted phase, \<open>building\<close> after gate 1, for any number of
  consecutive stale polls. The page evaluated on such polls: approved at gate 1 and
  acknowledged without a phase, the first stale poll shows \<open>building\<close> and the second one
  shows \<open>hitl_gate_1\<close> again, with status \<open>running\<close>; acknowledged with phase \<open>building\<close>,
  already the first stale poll shows \<open>hitl_gate_1\<close>. The phase of the view is no longer a
  gate once the prediction is shown, so \<open>maskedPhase\<close> falls through to the stale phase of
  the incoming result.
\<close>

theorem stale_polls_regress_to_gate:
  "hitlJustApproved (armedState ackNoPhase)
   \<and> status gateRun = ''waiting_hitl'' \<and> current_phase gateRun = ''hitl_gate_1''
   \<and> map_option current_phase (run (step (armedState ackNoPhase) (Poll staleCycle)))
       = Some ''building''
   \<and> hitlJustApproved (step (armedState ackNoPhase) (Poll staleCycle))
   \<and> map_option current_phase
        (run (step (step (armedState ackNoPhase) (Poll staleCycle)) (Poll staleCycle)))
       = Some ''hitl_gate_1''
   \<and> map_option status
        (run (step (step (armedState ackNoPhase) (Poll staleCycle)) (Poll staleCycle)))
       = Some ''running''
   \<and> hitlJustApproved (armedState (ackPhase ''building''))
   \<and> map_option current_phase (run (armedState (ackPhase ''building''))) = Some ''building''
   \<and> map_option current_phase (run (step (armedState (ackPhase ''building'')) (Poll staleCycle)))
       = Some ''hitl_gate_1''"
proof -
  have stale: "runRes staleCycle = Fulfilled (Some gateRun)"
    by (simp add: staleCycle_def sampleCycle_def)
  have gate: "status gateRun = ''waiting_hitl''" "current_phase gateRun = ''hitl_gate_1''"
    by (simp_all add: gateRun_def sampleRun_def)
  have armed: "hitlJustApproved (armedState ack)"
    "map_option current_phase (run (armedState ack))
       = Some (orElse (resp_current_phase ack) ''hitl_gate_1'')"
    if "resp_status ack \<noteq> ''already_processed''" for ack
    using that
    by (simp_all add: armedState_def sampleState_def mount_def gateRun_def sampleRun_def
        step_def isAtHITL_def completedEffect_def handleHITL_begin_def handleHITL_settle_def)
  have a0: "hitlJustApproved (armedState ackNoPhase)"
    "map_option current_phase (run (armedState ackNoPhase)) = Some ''hitl_gate_1''"
    using armed [of ackNoPhase] by (simp_all add: ackNoPhase_def orElse_def)
  have b0: "hitlJustApproved (armedState (ackPhase ''building''))"
    "map_option current_phase (run (armedState (ackPhase ''building''))) = Some ''building''"
    using armed [of "ackPhase ''building''"] by (simp_all add: ackPhase_def orElse_def)
  note first = stale_poll_keeps_running [OF a0(1) stale gate(1)]
  from first(3) a0(2) gate(2)
  have a1: "map_option current_phase (run (step (armedState ackNoPhase) (Poll staleCycle)))
              = Some ''building''"
    by (simp add: maskedPhase_def)
  note second = stale_poll_keeps_running [OF first(4) stale gate(1)]
  from second(3) a1 gate(2)
  have a2: "map_option current_phase
              (run (step (step (armedState ackNoPhase) (Poll staleCycle)) (Poll staleCycle)))
              = Some ''hitl_gate_1''"
    by (simp add: maskedPhase_def)
  note other = stale_poll_keeps_running [OF b0(1) stale gate(1)]
  from other(3) b0(2) gate(2)
  have b1: "map_option current_phase
              (run (step (armedState (ackPhase ''building'')) (Poll staleCycle)))
              = Some ''hitl_gate_1''"
    by (simp add: maskedPhase_def)
  from a0(1) gate a1 first(4) a2 second(1) b0 b1 show ?thesis by blast
qed

section \<open>Submitting a decision at a gate\<close>

lemma click_at_gate:
  assumes "run s = Some prev" and "status prev = ''waiting_hitl''"
    and "\<not> loading s" and "\<not> hitlLoading s"
  shows "step s (Click d feedback) = handleHITL_begin s"
  using assms by (simp add: step_def isAtHITL_def completedEffect_def handleHITL_begin_def)




text \<open>
  Claim C7. An acknowledgement with status \<open>already_processed\<close> only ends the loading
  state: the run shown and the flag are as before, and no error is set.
\<close>

theorem already_processed_arms_nothing:
  assumes "resp_status data = ''already_processed''"
  shows "handleHITL_settle s (Fulfilled data) = s\<lparr>hitlLoading := False\<rparr>
       \<and> run (handleHITL s d feedback (Fulfilled data)) = run s
       \<and> hitlJustApproved (handleHITL s d feedback (Fulfilled data)) = hitlJustApproved s
       \<and> error (handleHITL s d feedback (Fulfilled data)) = None
       \<and> \<not> hitlLoading (handleHITL s d feedback (Fulfilled data))"
  using assms by (simp add: handleHITL_def handleHITL_settle_def handleHITL_begin_def)

theorem already_processed_arms_nothing_witness:
  "resp_status alreadyProcessed = ''already_processed''
   \<and> run (handleHITL (sampleState (Some gateRun) False) Approved ''ok'' (Fulfilled alreadyProcessed))
       = Some gateRun
   \<and> \<not> hitlJustApproved
         (handleHITL (sampleState (Some gateRun) False) Approved ''ok'' (Fulfilled alreadyProcessed))
   \<and> error (handleHITL (sampleState (Some gateRun) False) Approved ''ok'' (Fulfilled alreadyProcessed))
       = None"
proof -
  have h: "resp_status alreadyProcessed = ''already_processed''"
    by (simp add: alreadyProcessed_def)
  show ?thesis
    using h already_processed_arms_nothing
            [OF h, of "sampleState (Some gateRun) False" Approved "''ok''"]
    by (simp add: sampleState_def)
qed



section \<open>Partial failure of a poll cycle\<close>



lemma applyRun_fields [simp]:
  "artifacts (caught (applyRun s i)) = artifacts s"
  "files (caught (applyRun s i)) = files s"
  "decisions (caught (applyRun s i)) = decisions s"
  "deploy (caught (applyRun s i)) = deploy s"
  "activityLog (caught (applyRun s i)) = activityLog s"
  by (simp_all add: applyRun_caught split: option.splits)


lemma afterRun_fields [simp]:
  "artifacts (afterRun s c) = artifacts s"
  "files (afterRun s c) = files s"
  "decisions (afterRun s c) = decisions s"
  "deploy (afterRun s c) = deploy s"
  "activityLog (afterRun s c) = activityLog s"
  by (simp_all add: afterRun_def split: settled.splits)





text \<open>
  Claim C10. When the run-status request of a cycle fails with 404, the artifacts, files,
  decisions, deploy and activity fields keep their values, also where their own requests
  were fulfilled.
\<close>

theorem not_found_keeps_other_fields:
  assumes "runRes c = Rejected e" and "is404 e"
  shows "artifacts (step s (Poll c)) = artifacts s
       \<and> files (step s (Poll c)) = files s
       \<and> decisions (step s (Poll c)) = decisions s
       \<and> deploy (step s (Poll c)) = deploy s
       \<and> activityLog (step s (Poll c)) = activityLog s"
  using assms by (simp add: step_def fetchAll_not_found)

theorem not_found_keeps_other_fields_witness:
  "runRes notFoundCycle = Rejected (sampleFailure (Some 404))
   \<and> is404 (sampleFailure (Some 404))
   \<and> artRes notFoundCycle = Fulfilled (Some ''requirements'')
   \<and> filesRes notFoundCycle = Fulfilled (Some \<lparr>body_files = Some [''app/main.py'']\<rparr>)
   \<and> artifacts (step (sampleState (Some gateRun) False) (Poll notFoundCycle)) = None
   \<and> files (step (sampleState (Some gateRun) False) (Poll notFoundCycle)) = []
   \<and> decisions (step (sampleState (Some gateRun) False) (Poll notFoundCycle)) = []
   \<and> deploy (step (sampleState (Some gateRun) False) (Poll notFoundCycle))
       = Some \<lparr>dep_status = ''idle'', urls = []\<rparr>
   \<and> activityLog (step (sampleState (Some gateRun) False) (Poll notFoundCycle)) = []"
proof -
  have h1: "runRes notFoundCycle = Rejected (sampleFailure (Some 404))"
    by (simp add: notFoundCycle_def sampleCycle_def)
  have h2: "is404 (sampleFailure (Some 404))"
    by (simp add: is404_def sampleFailure_def)
  have h3: "artRes notFoundCycle = Fulfilled (Some ''requirements'')"
    "filesRes notFoundCycle = Fulfilled (Some \<lparr>body_files = Some [''app/main.py'']\<rparr>)"
    by (simp_all add: notFoundCycle_def sampleCycle_def)
  show ?thesis
    using h1 h2 h3 not_found_keeps_other_fields [OF h1 h2, of "sampleState (Some gateRun) False"]
    by (simp add: sampleState_def mount_def)
qed


section \<open>A session from the mount on\<close>

lemma session_first_poll:
  "step mount (Poll staleCycle) = sampleState (Some gateRun) False
     \<lparr>artifacts := Some ''requirements'', files := [''app/main.py''],
      deploy := Some \<lparr>dep_status = ''running'', urls = []\<rparr>,
      activityLog := [sampleEntry ''BA Agent'' ''done'']\<rparr>"
  by (simp add: step_def completedEffect_def mount_def fetchAll_def tryBlock_def applyRun_def
      applyRest_def setArtifacts_def setFiles_def setDecisions_def setDeploy_def
      setActivityLog_def staleCycle_def sampleCycle_def gateRun_def sampleRun_def
      sampleState_def orEmpty_def)

lemma session_click:
  "step (step mount (Poll staleCycle)) (Click Approved ''ok'')
     = handleHITL_begin (step mount (Poll staleCycle))"
proof (rule click_at_gate [where prev = gateRun])
  show "run (step mount (Poll staleCycle)) = Some gateRun"
    unfolding session_first_poll by (simp add: sampleState_def)
  show "status gateRun = ''waiting_hitl''"
    by (simp add: gateRun_def sampleRun_def)
  show "\<not> loading (step mount (Poll staleCycle))"
    unfolding session_first_poll by (simp add: sampleState_def)
  show "\<not> hitlLoading (step mount (Poll staleCycle))"
    unfolding session_first_poll by (simp add: sampleState_def mount_def)
qed

lemma session_acknowledged:
  "step (handleHITL_begin (step mount (Poll staleCycle))) (HitlSettled (Fulfilled ackNoPhase))
     = handleHITL_settle (handleHITL_begin (step mount (Poll staleCycle))) (Fulfilled ackNoPhase)"
  unfolding session_first_poll
  by (simp add: step_def completedEffect_def handleHITL_begin_def handleHITL_settle_def
      sampleState_def ackNoPhase_def)

lemma session_state:
  "sessionState
     = handleHITL_settle (handleHITL_begin (step mount (Poll staleCycle))) (Fulfilled ackNoPhase)"
  by (simp only: sessionState_def sessionEvents_def run_events_def foldl_Cons foldl_Nil
      session_click session_acknowledged)

text \<open>
  At the end of that session the interval is live, the flag is set, the view shows
  \<open>running\<close> and no command is in flight.
\<close>

lemma session_live:
  "pollRef sessionState"
  "hitlJustApproved sessionState"
  "map_option status (run sessionState) = Some ''running''"
  "\<not> hitlLoading sessionState"
  unfolding session_state session_first_poll
  by (simp_all add: handleHITL_begin_def handleHITL_settle_def sampleState_def mount_def
      ackNoPhase_def)

section \<open>The run is gone: terminal stop\<close>

lemma fetchAll_pollRef_off: "\<not> pollRef s \<Longrightarrow> \<not> pollRef (fetchAll s c)"
proof (cases "runRes c")
  case (Fulfilled incoming)
  moreover assume "\<not> pollRef s"
  ultimately show ?thesis
    by (simp add: fetchAll_fulfilled applyRun_caught split: option.splits)
next
  case (Rejected e)
  moreover assume "\<not> pollRef s"
  ultimately show ?thesis
    by (cases "is404 e") (simp_all add: fetchAll_rejected fetchAll_not_found)
qed

lemma dispatch_pollRef_off:
  assumes "\<not> activation e" and "\<not> pollRef s"
  shows "\<not> pollRef (dispatch s e)"
  using assms
  by (cases e)
     (simp_all add: fetchAll_pollRef_off handleHITL_begin_def handleHITL_settle_def
        split: settled.splits)

lemma step_pollRef_off: "\<not> activation e \<Longrightarrow> \<not> pollRef s \<Longrightarrow> \<not> pollRef (step s e)"
  by (simp add: step_def completedEffect_pollRef_off dispatch_pollRef_off)

lemma run_events_pollRef_off:
  "\<not> list_ex activation evs \<Longrightarrow> \<not> pollRef s \<Longrightarrow> \<not> pollRef (run_events s evs)"
proof (induction evs arbitrary: s)
  case Nil
  then show ?case by (simp add: run_events_def)
next
  case (Cons e evs)
  from Cons.prems have "\<not> activation e" and rest: "\<not> list_ex activation evs" by simp_all
  with Cons.prems have "\<not> pollRef (step s e)" by (simp add: step_pollRef_off)
  with rest have "\<not> pollRef (run_events (step s e) evs)" by (rule Cons.IH)
  then show ?case by (simp add: run_events_def)
qed

lemma activation_resumes_polling: "activation e \<Longrightarrow> pollRef (step s e)"
  by (cases e) (simp_all add: step_def completedEffect_def mount_def)

lemma not_found_step:
  assumes "runRes c = Rejected e" and "is404 e"
  shows "run (step s (Poll c)) = None" and "\<not> pollRef (step s (Poll c))"
    and "hitlJustApproved (step s (Poll c)) = hitlJustApproved s"
  using assms by (simp_all add: step_def fetchAll_not_found completedEffect_def)

text \<open>
  Claim C5. When the run-status request fails with 404 the run becomes absent and the
  interval is cleared, and it stays cleared through any later events that do not include
  a new activation (a new mount of the page, or a change of its run id).
\<close>

theorem not_found_stops_polling:
  assumes "runRes c = Rejected e" and "is404 e" and "\<not> list_ex activation evs"
  shows "run (step s (Poll c)) = None
       \<and> \<not> pollRef (step s (Poll c))
       \<and> \<not> pollRef (run_events (step s (Poll c)) evs)"
proof -
  from assms(1,2) have gone: "run (step s (Poll c)) = None" and off: "\<not> pollRef (step s (Poll c))"
    by (rule not_found_step)+
  from assms(3) off have "\<not> pollRef (run_events (step s (Poll c)) evs)"
    by (rule run_events_pollRef_off)
  with off gone show ?thesis by simp
qed

theorem not_found_stops_polling_witness:
  "runRes notFoundCycle = Rejected (sampleFailure (Some 404))
   \<and> is404 (sampleFailure (Some 404))
   \<and> \<not> list_ex activation
          [Poll staleCycle, Click Approved ''ok'', HitlSettled (Fulfilled ackNoPhase),
           SetTab ''Deploy'', Teardown, Poll staleCycle]
   \<and> pollRef (sampleState (Some gateRun) False)
   \<and> run (step (sampleState (Some gateRun) False) (Poll notFoundCycle)) = None
   \<and> \<not> pollRef (step (sampleState (Some gateRun) False) (Poll notFoundCycle))
   \<and> \<not> pollRef (run_events (step (sampleState (Some gateRun) False) (Poll notFoundCycle))
                    [Poll staleCycle, Click Approved ''ok'', HitlSettled (Fulfilled ackNoPhase),
                     SetTab ''Deploy'', Teardown, Poll staleCycle])"
proof -
  let ?evs = "[Poll staleCycle, Click Approved ''ok'', HitlSettled (Fulfilled ackNoPhase),
               SetTab ''Deploy'', Teardown, Poll staleCycle]"
  have h1: "runRes notFoundCycle = Rejected (sampleFailure (Some 404))"
    by (simp add: notFoundCycle_def sampleCycle_def)
  have h2: "is404 (sampleFailure (Some 404))"
    by (simp add: is404_def sampleFailure_def)
  have h3: "\<not> list_ex activation ?evs" by simp
  have h4: "pollRef (sampleState (Some gateRun) False)"
    by (simp add: sampleState_def mount_def)
  show ?thesis
    using h1 h2 h3 h4
      not_found_stops_polling [OF h1 h2 h3, of "sampleState (Some gateRun) False"]
    by simp
qed

text \<open>
  Claim C9, amended. When the run-status request fails with 404 the run becomes absent and
  the flag \<open>hitlJustApproved\<close> keeps the value it had: a pending overlay stays pending. A
  new mount of the page starts with the flag cleared.
\<close>

theorem not_found_leaves_overlay_flag:
  assumes "runRes c = Rejected e" and "is404 e"
  shows "run (step s (Poll c)) = None
       \<and> hitlJustApproved (step s (Poll c)) = hitlJustApproved s
       \<and> \<not> hitlJustApproved (step (step s (Poll c)) Activate)"
  using assms by (simp add: step_def fetchAll_not_found mount_def)

theorem not_found_leaves_overlay_flag_witness:
  "runRes notFoundCycle = Rejected (sampleFailure (Some 404))
   \<and> is404 (sampleFailure (Some 404))
   \<and> run (step (sampleState (Some gateRun) True) (Poll notFoundCycle)) = None
   \<and> hitlJustApproved (step (sampleState (Some gateRun) True) (Poll notFoundCycle))
   \<and> \<not> hitlJustApproved
         (step (step (sampleState (Some gateRun) True) (Poll notFoundCycle)) Activate)"
proof -
  have h1: "runRes notFoundCycle = Rejected (sampleFailure (Some 404))"
    by (simp add: notFoundCycle_def sampleCycle_def)
  have h2: "is404 (sampleFailure (Some 404))"
    by (simp add: is404_def sampleFailure_def)
  show ?thesis
    using h1 h2 not_found_leaves_overlay_flag [OF h1 h2, of "sampleState (Some gateRun) True"]
    by (simp add: sampleState_def)
qed

text \<open>
  Claim C9 as stated fails: at the end of the session from the mount on the overlay is
  pending; a run-status failure with 404 makes the run absent and the flag is still set
  afterwards.
\<close>

theorem overlay_survives_not_found:
  "hitlJustApproved sessionState
   \<and> notFound (runRes notFoundCycle)
   \<and> run (step sessionState (Poll notFoundCycle)) = None
   \<and> hitlJustApproved (step sessionState (Poll notFoundCycle))"
proof -
  have h1: "runRes notFoundCycle = Rejected (sampleFailure (Some 404))"
    by (simp add: notFoundCycle_def sampleCycle_def)
  have h2: "is404 (sampleFailure (Some 404))"
    by (simp add: is404_def sampleFailure_def)
  from h1 h2 have nf: "notFound (runRes notFoundCycle)" by (simp add: notFound_def)
  note nfs = not_found_step [OF h1 h2, of sessionState]
  from session_live(2) nf nfs show ?thesis by simp
qed


section \<open>The run is completed: polling ends and the gate is gone\<close>

lemma pollOK_mount: "pollOK mount"
  by (simp add: pollOK_def mount_def)

lemma pollOK_step:
  assumes "pollOK s" and "e \<noteq> RunIdChanged"
  shows "pollOK (step s e)"
proof (cases "e = Activate")
  case True
  then show ?thesis by (simp add: step_def pollOK_def completedEffect_def mount_def)
next
  case other: False
  with assms(2) have quiet: "\<not> activation e" by (cases e) simp_all
  let ?t = "dispatch s e"
  show ?thesis
  proof (cases "map_option status (run ?t) = Some ''completed''")
    case fin: True
    show ?thesis
    proof (cases "map_option status (run ?t) = map_option status (run s)")
      case True
      with fin assms(1) have "\<not> pollRef s" by (simp add: pollOK_def)
      with quiet have "\<not> pollRef ?t" by (simp add: dispatch_pollRef_off)
      then show ?thesis by (simp add: step_def pollOK_def completedEffect_def)
    next
      case False
      with fin show ?thesis by (simp add: step_def pollOK_def completedEffect_def)
    qed
  next
    case False
    then show ?thesis by (simp add: step_def pollOK_def)
  qed
qed

text \<open>A change of run id keeps the invariant unless the page shows a completed run.\<close>

lemma step_RunIdChanged: "step s RunIdChanged = s\<lparr>pollRef := True\<rparr>"
  by (simp add: step_def completedEffect_def)

lemma pollOK_RunIdChanged:
  "map_option status (run s) \<noteq> Some ''completed'' \<Longrightarrow> pollOK (step s RunIdChanged)"
  by (simp add: step_RunIdChanged pollOK_def)

lemma pollOK_run_events:
  "RunIdChanged \<notin> set evs \<Longrightarrow> pollOK s \<Longrightarrow> pollOK (run_events s evs)"
proof (induction evs arbitrary: s)
  case Nil
  then show ?case by (simp add: run_events_def)
next
  case (Cons e evs)
  from Cons.prems have "e \<noteq> RunIdChanged" by auto
  with Cons.prems(2) have "pollOK (step s e)" by (rule pollOK_step)
  moreover from Cons.prems have "RunIdChanged \<notin> set evs" by simp
  ultimately have "pollOK (run_events (step s e) evs)" by (rule Cons.IH [rotated])
  then show ?case by (simp add: run_events_def)
qed

lemma notWaiting_click: "notWaiting s \<Longrightarrow> step s (Click d feedback) = s"
  by (cases "run s") (simp_all add: notWaiting_def step_def isAtHITL_def completedEffect_def)

lemma notWaiting_not_gate: "notWaiting s \<Longrightarrow> \<not> isAtHITL s"
  by (cases "run s") (simp_all add: notWaiting_def isAtHITL_def)

lemma notWaiting_fetchAll:
  assumes "avoidsWaiting (Poll c)" and "notWaiting s"
  shows "notWaiting (fetchAll s c)"
proof (cases "runRes c")
  case (Fulfilled incoming)
  with assms show ?thesis
    by (cases incoming)
       (simp_all add: notWaiting_def fetchAll_fulfilled applyRun_caught)
next
  case (Rejected e)
  with assms show ?thesis
    by (cases "is404 e") (simp_all add: notWaiting_def fetchAll_rejected fetchAll_not_found)
qed

lemma notWaiting_dispatch:
  assumes "avoidsWaiting e" and "notWaiting s"
  shows "notWaiting (dispatch s e)"
proof (cases e)
  case (Poll c)
  with assms show ?thesis by (simp add: notWaiting_fetchAll)
next
  case (HitlSettled res)
  with assms show ?thesis
    by (cases res; cases "run s")
       (simp_all add: notWaiting_def handleHITL_settle_def)
qed (use assms in \<open>simp_all add: notWaiting_def handleHITL_begin_def mount_def
       split: settled.splits\<close>)

lemma notWaiting_step: "avoidsWaiting e \<Longrightarrow> notWaiting s \<Longrightarrow> notWaiting (step s e)"
  using notWaiting_dispatch [of e s] by (simp add: step_def notWaiting_def)

lemma notWaiting_run_events:
  "list_all avoidsWaiting evs \<Longrightarrow> notWaiting s \<Longrightarrow> notWaiting (run_events s evs)"
proof (induction evs arbitrary: s)
  case Nil
  then show ?case by (simp add: run_events_def)
next
  case (Cons e evs)
  from Cons.prems have "notWaiting (step s e)" by (simp add: notWaiting_step)
  moreover from Cons.prems have "list_all avoidsWaiting evs" by simp
  ultimately have "notWaiting (run_events (step s e) evs)" by (rule Cons.IH [rotated])
  then show ?case by (simp add: run_events_def)
qed

lemma poll_completed_view:
  assumes "runRes c = Fulfilled (Some incoming)" and "status incoming = ''completed''"
  shows "run (step s (Poll c)) = Some incoming" and "\<not> hitlJustApproved (step s (Poll c))"
  using assms by (simp_all add: step_def fetchAll_fulfilled applyRun_caught)

text \<open>
  Claim C6, amended. A poll whose run-status result says \<open>completed\<close> clears the flag, and
  after it the gate is not rendered: a press on a gate button does nothing (the state is
  unchanged, no command is sent), and that remains so until a run-status result says
  \<open>waiting_hitl\<close>. Unless the page was showing a completed run with its interval live
  when the poll arrived, the poll also leaves the interval cleared, and it stays cleared
  through any later events short of a new activation.
\<close>

theorem completed_poll_ends_session:
  assumes "runRes c = Fulfilled (Some incoming)" and "status incoming = ''completed''"
    and "pollOK s"
    and "\<not> list_ex activation later" and "list_all avoidsWaiting quiet"
  shows "\<not> hitlJustApproved (step s (Poll c))
       \<and> \<not> pollRef (step s (Poll c))
       \<and> \<not> pollRef (run_events (step s (Poll c)) later)
       \<and> \<not> isAtHITL (step s (Poll c))
       \<and> step (step s (Poll c)) (Click d feedback) = step s (Poll c)
       \<and> step (run_events (step s (Poll c)) quiet) (Click d feedback)
           = run_events (step s (Poll c)) quiet"
proof -
  let ?s' = "step s (Poll c)"
  have view: "run ?s' = Some incoming" and flag: "\<not> hitlJustApproved ?s'"
    using assms(1,2) by (rule poll_completed_view)+
  from assms(3) have "pollOK ?s'" by (simp add: pollOK_step)
  with view assms(2) have off: "\<not> pollRef ?s'" by (simp add: pollOK_def)
  with assms(4) have later: "\<not> pollRef (run_events ?s' later)"
    by (rule run_events_pollRef_off)
  from view assms(2) have nw: "notWaiting ?s'" by (simp add: notWaiting_def)
  then have gate: "\<not> isAtHITL ?s'" and click: "step ?s' (Click d feedback) = ?s'"
    by (simp_all add: notWaiting_not_gate notWaiting_click)
  from assms(5) nw have "notWaiting (run_events ?s' quiet)" by (rule notWaiting_run_events)
  then have "step (run_events ?s' quiet) (Click d feedback) = run_events ?s' quiet"
    by (rule notWaiting_click)
  with flag off later gate click show ?thesis by simp
qed

text \<open>
  The session from the mount on, then a change of run id, then the poll that reports
  \<open>completed\<close>: the interval was live and the flag set; afterwards both are cleared and a
  click is ignored, also after later results that say \<open>running\<close>, a \<^verbatim>\<open>null\<close> body, a new
  mount and a 404.
\<close>

theorem completed_poll_ends_session_witness:
  "runRes completedCycle = Fulfilled (Some (sampleRun ''completed'' ''done'' ''''))
   \<and> status (sampleRun ''completed'' ''done'' '''') = ''completed''
   \<and> pollOK (step sessionState RunIdChanged)
   \<and> \<not> list_ex activation [Poll staleCycle, Teardown, CloseError]
   \<and> list_all avoidsWaiting
        [Poll (sampleCycle (Fulfilled (Some buildingRun))), RunIdChanged, Poll nullRunCycle,
         Activate, Poll notFoundCycle]
   \<and> pollRef (step sessionState RunIdChanged)
   \<and> hitlJustApproved (step sessionState RunIdChanged)
   \<and> \<not> hitlJustApproved (step (step sessionState RunIdChanged) (Poll completedCycle))
   \<and> \<not> pollRef (step (step sessionState RunIdChanged) (Poll completedCycle))
   \<and> \<not> pollRef
        (run_events (step (step sessionState RunIdChanged) (Poll completedCycle))
           [Poll staleCycle, Teardown, CloseError])
   \<and> \<not> isAtHITL (step (step sessionState RunIdChanged) (Poll completedCycle))
   \<and> step (step (step sessionState RunIdChanged) (Poll completedCycle))
           (Click Approved ''again'')
       = step (step sessionState RunIdChanged) (Poll completedCycle)
   \<and> step (run_events (step (step sessionState RunIdChanged) (Poll completedCycle))
             [Poll (sampleCycle (Fulfilled (Some buildingRun))), RunIdChanged,
              Poll nullRunCycle, Activate, Poll notFoundCycle])
           (Click Approved ''again'')
       = run_events (step (step sessionState RunIdChanged) (Poll completedCycle))
           [Poll (sampleCycle (Fulfilled (Some buildingRun))), RunIdChanged,
            Poll nullRunCycle, Activate, Poll notFoundCycle]"
proof -
  have h1: "runRes completedCycle = Fulfilled (Some (sampleRun ''completed'' ''done'' ''''))"
    by (simp add: completedCycle_def sampleCycle_def)
  have h2: "status (sampleRun ''completed'' ''done'' '''') = ''completed''"
    by (simp add: sampleRun_def)
  have h3: "pollOK (step sessionState RunIdChanged)"
    by (rule pollOK_RunIdChanged) (simp add: session_live)
  have h4: "\<not> list_ex activation [Poll staleCycle, Teardown, CloseError]" by simp
  have h5: "list_all avoidsWaiting
        [Poll (sampleCycle (Fulfilled (Some buildingRun))), RunIdChanged, Poll nullRunCycle,
         Activate, Poll notFoundCycle]"
    by (simp add: sampleCycle_def buildingRun_def sampleRun_def nullRunCycle_def
        notFoundCycle_def)
  have before: "pollRef (step sessionState RunIdChanged)"
    "hitlJustApproved (step sessionState RunIdChanged)"
    by (simp_all add: step_RunIdChanged session_live)
  note t = completed_poll_ends_session [OF h1 h2 h3 h4 h5, of Approved "''again''"]
  from h1 h2 h3 h4 h5 before t show ?thesis by blast
qed

lemma poll_hitlLoading [simp]: "hitlLoading (step s (Poll c)) = hitlLoading s"
proof (cases "runRes c")
  case (Fulfilled incoming)
  then show ?thesis
    by (simp add: step_def fetchAll_fulfilled applyRun_caught split: option.splits)
next
  case (Rejected e)
  then show ?thesis
    by (cases "is404 e") (simp_all add: step_def fetchAll_rejected fetchAll_not_found)
qed

text \<open>
  On a page that changed its run id while it showed a completed run, a poll that reports
  \<open>completed\<close> again does not change the status shown, the second effect does not run and
  the interval stays live.
\<close>

lemma completed_again_keeps_interval:
  assumes "run s = Some prev" and "status prev = ''completed''"
    and "runRes c = Fulfilled (Some incoming)" and "status incoming = ''completed''"
  shows "pollRef (step (step s RunIdChanged) (Poll c))"
  using assms
  by (simp add: step_RunIdChanged)
     (simp add: step_def completedEffect_def fetchAll_fulfilled applyRun_caught)

text \<open>
  A run-status result that says \<open>waiting_hitl\<close>, arriving while no overlay is pending, puts
  the gate back on the page, whatever the page showed before; a click is then accepted.
\<close>

lemma waiting_result_reopens_gate:
  assumes "\<not> hitlJustApproved s" and "\<not> hitlLoading s"
    and "runRes c = Fulfilled (Some incoming)" and "status incoming = ''waiting_hitl''"
  shows "isAtHITL (step s (Poll c))"
    and "hitlLoading (step (step s (Poll c)) (Click d feedback))"
proof -
  from assms(1,3,4) show gate: "isAtHITL (step s (Poll c))"
    by (simp add: step_def fetchAll_fulfilled fetchAll_loading applyRun_caught isAtHITL_def)
  from assms(2) have "\<not> hitlLoading (step s (Poll c))" by simp
  with gate show "hitlLoading (step (step s (Poll c)) (Click d feedback))"
    by (simp add: step_def handleHITL_begin_def)
qed

text \<open>
  Claim C6 as stated fails in two places. After a change of run id on a page that showed a
  completed run, a poll that reports \<open>completed\<close> leaves the interval live. And nothing
  remembers that \<open>completed\<close> was seen: after the poll that reported it, a run-status
  result that says \<open>waiting_hitl\<close> (a late answer of an earlier cycle, say) renders the
  gate again and a click on it is taken.
\<close>

theorem completed_is_not_latched:
  "runRes completedCycle = Fulfilled (Some (sampleRun ''completed'' ''done'' ''''))
   \<and> status (sampleRun ''completed'' ''done'' '''') = ''completed''
   \<and> \<not> pollRef (step mount (Poll completedCycle))
   \<and> pollRef (step (step (step mount (Poll completedCycle)) RunIdChanged) (Poll completedCycle))
   \<and> isAtHITL (step (step (step mount (Poll staleCycle)) (Poll completedCycle)) (Poll staleCycle))
   \<and> \<not> hitlLoading
         (step (step (step mount (Poll staleCycle)) (Poll completedCycle)) (Poll staleCycle))
   \<and> hitlLoading
       (step (step (step (step mount (Poll staleCycle)) (Poll completedCycle)) (Poll staleCycle))
             (Click Approved ''ok''))"
proof -
  have h1: "runRes completedCycle = Fulfilled (Some (sampleRun ''completed'' ''done'' ''''))"
    by (simp add: completedCycle_def sampleCycle_def)
  have h2: "status (sampleRun ''completed'' ''done'' '''') = ''completed''"
    by (simp add: sampleRun_def)
  have st: "runRes staleCycle = Fulfilled (Some gateRun)" "status gateRun = ''waiting_hitl''"
    by (simp_all add: staleCycle_def sampleCycle_def gateRun_def sampleRun_def)
  have view: "run (step mount (Poll completedCycle)) = Some (sampleRun ''completed'' ''done'' '''')"
    using h1 h2 by (rule poll_completed_view)
  have "pollOK (step mount (Poll completedCycle))"
    by (simp add: pollOK_step pollOK_mount)
  with view h2 have off: "\<not> pollRef (step mount (Poll completedCycle))"
    by (simp add: pollOK_def)
  from view h2 h1 h2
  have live: "pollRef (step (step (step mount (Poll completedCycle)) RunIdChanged)
                            (Poll completedCycle))"
    by (rule completed_again_keeps_interval)
  let ?s' = "step (step mount (Poll staleCycle)) (Poll completedCycle)"
  have flag: "\<not> hitlJustApproved ?s'"
    using h1 h2 by (rule poll_completed_view)
  have idle: "\<not> hitlLoading ?s'" by (simp add: mount_def)
  then have idle': "\<not> hitlLoading (step ?s' (Poll staleCycle))" by simp
  from flag idle st
  have "isAtHITL (step ?s' (Poll staleCycle))"
    and "hitlLoading (step (step ?s' (Poll staleCycle)) (Click Approved ''ok''))"
    by (rule waiting_result_reopens_gate)+
  with h1 h2 off live idle' show ?thesis by blast
qed

section \<open>The timeline is canonical\<close>

lemma length_PHASES: "length PHASES = 7"
  by (simp add: PHASES_def)

lemma phaseIndex_nth:
  assumes "j < length PHASES"
  shows "phaseIndex (PHASES ! j) = int j"
proof -
  from assms have "j = 0 \<or> j = 1 \<or> j = 2 \<or> j = 3 \<or> j = 4 \<or> j = 5 \<or> j = 6"
    by (simp add: length_PHASES) arith
  then show ?thesis
    by (elim disjE) (simp_all add: phaseIndex_def PHASES_def)
qed

text \<open>A phase outside the table counts as the first one.\<close>

lemma phaseIndex_unknown: "phase \<notin> set PHASES \<Longrightarrow> phaseIndex phase = 0"
  by (auto simp add: phaseIndex_def PHASES_def)

lemma length_PipelineTracker: "length (PipelineTracker r log) = length PHASES"
  by (simp add: PipelineTracker_def Let_def)

lemma PipelineTracker_nth:
  assumes "i < length PHASES"
  shows "PipelineTracker r log ! i =
           \<lparr>pv_key = PHASES ! i,
            isDone = (int i < phaseIndex (current_phase r)),
            isCurrent = (int i = phaseIndex (current_phase r)),
            isPending = (int i > phaseIndex (current_phase r)),
            phaseAgents = filter (\<lambda>(a, entry). map_of AGENT_PHASE a = Some (PHASES ! i))
                                 (latestByAgent log)\<rparr>"
  using assms by (simp add: PipelineTracker_def Let_def nth_enumerate_eq)

lemma PipelineTracker_keys: "map pv_key (PipelineTracker r log) = PHASES"
  by (rule nth_equalityI) (simp_all add: length_PipelineTracker PipelineTracker_nth)

lemma PipelineTracker_classes:
  "map (\<lambda>v. (pv_key v, isDone v, isCurrent v, isPending v)) (PipelineTracker r log)
     = map (\<lambda>v. (pv_key v, isDone v, isCurrent v, isPending v)) (PipelineTracker r log')"
  by (rule nth_equalityI) (simp_all add: length_PipelineTracker PipelineTracker_nth)

text \<open>
  Claim C8. The rows of the timeline are the seven phases in the table's order, whatever
  the activity log holds. When the run's current phase is the phase at position \<open>j\<close>, the
  row at position \<open>i\<close> is done for \<open>i < j\<close>, current for \<open>i = j\<close> and pending for
  \<open>j < i\<close>. The timeline depends on the run only through its current phase, and its keys
  and classes do not depend on the log at all.
\<close>

theorem timeline_is_canonical_and_classified:
  "map pv_key (PipelineTracker r log)
     = [''planning'', ''hitl_gate_1'', ''building'', ''integration'', ''hitl_gate_2'',
        ''devops'', ''done'']
   \<and> (\<forall>i j. i < length PHASES \<and> j < length PHASES \<and> current_phase r = PHASES ! j \<longrightarrow>
          pv_key (PipelineTracker r log ! i) = PHASES ! i
        \<and> isDone (PipelineTracker r log ! i) = (i < j)
        \<and> isCurrent (PipelineTracker r log ! i) = (i = j)
        \<and> isPending (PipelineTracker r log ! i) = (j < i))
   \<and> (\<forall>r' :: run_data. current_phase r' = current_phase r \<longrightarrow>
          PipelineTracker r' log = PipelineTracker r log)
   \<and> (\<forall>log'. map (\<lambda>v. (pv_key v, isDone v, isCurrent v, isPending v)) (PipelineTracker r log')
              = map (\<lambda>v. (pv_key v, isDone v, isCurrent v, isPending v)) (PipelineTracker r log))"
proof (intro conjI allI impI)
  show "map pv_key (PipelineTracker r log)
     = [''planning'', ''hitl_gate_1'', ''building'', ''integration'', ''hitl_gate_2'',
        ''devops'', ''done'']"
    using PipelineTracker_keys [of r log] by (simp add: PHASES_def)
next
  fix i j
  assume a: "i < length PHASES \<and> j < length PHASES \<and> current_phase r = PHASES ! j"
  then have idx: "phaseIndex (current_phase r) = int j" by (simp add: phaseIndex_nth)
  from a idx show "pv_key (PipelineTracker r log ! i) = PHASES ! i"
    and "isDone (PipelineTracker r log ! i) = (i < j)"
    and "isCurrent (PipelineTracker r log ! i) = (i = j)"
    and "isPending (PipelineTracker r log ! i) = (j < i)"
    by (simp_all add: PipelineTracker_nth)
next
  fix r' :: run_data
  assume "current_phase r' = current_phase r"
  then show "PipelineTracker r' log = PipelineTracker r log"
    by (simp add: PipelineTracker_def)
next
  fix log'
  show "map (\<lambda>v. (pv_key v, isDone v, isCurrent v, isPending v)) (PipelineTracker r log')
      = map (\<lambda>v. (pv_key v, isDone v, isCurrent v, isPending v)) (PipelineTracker r log)"
    by (rule PipelineTracker_classes)
qed

text \<open>
  A run at \<open>building\<close> with three log entries: gate 1 is done, \<open>building\<close> is current,
  \<open>integration\<close> is pending; another status or the log read backwards changes nothing.
\<close>

theorem timeline_is_canonical_and_classified_witness:
  "map pv_key (PipelineTracker buildingRun sampleLog)
     = [''planning'', ''hitl_gate_1'', ''building'', ''integration'', ''hitl_gate_2'',
        ''devops'', ''done'']
   \<and> current_phase buildingRun = PHASES ! 2
   \<and> isDone (PipelineTracker buildingRun sampleLog ! 1)
   \<and> isCurrent (PipelineTracker buildingRun sampleLog ! 2)
   \<and> isPending (PipelineTracker buildingRun sampleLog ! 3)
   \<and> \<not> isDone (PipelineTracker buildingRun sampleLog ! 2)
   \<and> current_phase (sampleRun ''waiting_hitl'' ''building'' '''') = current_phase buildingRun
   \<and> PipelineTracker (sampleRun ''waiting_hitl'' ''building'' '''') sampleLog
       = PipelineTracker buildingRun sampleLog
   \<and> map (\<lambda>v. (pv_key v, isDone v, isCurrent v, isPending v))
           (PipelineTracker buildingRun (rev sampleLog))
       = map (\<lambda>v. (pv_key v, isDone v, isCurrent v, isPending v))
           (PipelineTracker buildingRun sampleLog)"
proof -
  note t = timeline_is_canonical_and_classified [of buildingRun sampleLog]
  have cur: "current_phase buildingRun = PHASES ! 2"
    by (simp add: buildingRun_def sampleRun_def PHASES_def)
  have same: "current_phase (sampleRun ''waiting_hitl'' ''building'' '''')
                = current_phase buildingRun"
    by (simp add: buildingRun_def sampleRun_def)
  have len: "1 < length PHASES" "2 < length PHASES" "3 < length PHASES"
    by (simp_all add: PHASES_def)
  from t have cls:
    "i < length PHASES \<and> j < length PHASES \<and> current_phase buildingRun = PHASES ! j
      \<longrightarrow> isDone (PipelineTracker buildingRun sampleLog ! i) = (i < j)
        \<and> isCurrent (PipelineTracker buildingRun sampleLog ! i) = (i = j)
        \<and> isPending (PipelineTracker buildingRun sampleLog ! i) = (j < i)" for i j
    by blast
  from cls [of 1 2] cls [of 2 2] cls [of 3 2] len cur
  have rows: "isDone (PipelineTracker buildingRun sampleLog ! 1)"
    "isCurrent (PipelineTracker buildingRun sampleLog ! 2)"
    "isPending (PipelineTracker buildingRun sampleLog ! 3)"
    "\<not> isDone (PipelineTracker buildingRun sampleLog ! 2)"
    by simp_all
  from t same have pure:
    "PipelineTracker (sampleRun ''waiting_hitl'' ''building'' '''') sampleLog
       = PipelineTracker buildingRun sampleLog"
    by blast
  from t cur rows same pure show ?thesis by blast
qed

text \<open>
  The agents of a row are the latest entries of the agents that the table maps to the
  row's phase, in the order of their first entry.
\<close>

lemma sample_agents:
  "map fst (phaseAgents (PipelineTracker buildingRun sampleLog ! 0)) = [''BA Agent'', ''Architect'']
   \<and> map (message \<circ> snd) (phaseAgents (PipelineTracker buildingRun sampleLog ! 0))
       = [''requirements ready'', ''tech spec'']"
  by (simp add: PipelineTracker_nth length_PHASES latestByAgent_def sampleLog_def sampleEntry_def
      AGENT_PHASE_def PHASES_def)

end
